theory Spec2Isabelle
  imports Main
begin

section \<open>JavaScript values and objects\<close>

text \<open>
  The values that occur in the state record, the store and the window options:
  \<open>undefined\<close>, numbers (window geometry is integral), booleans and strings.
  A plain object is a finite map from property names to values; reading a
  property that is absent yields \<open>undefined\<close>.
\<close>

datatype jsval = Undefined | Num int | Bool bool | Str string

type_synonym obj = "string \<rightharpoonup> jsval"

definition get_prop :: "obj \<Rightarrow> string \<Rightarrow> jsval" where
  "get_prop ob k = (case ob k of None \<Rightarrow> Undefined | Some v \<Rightarrow> v)"

text \<open>\<open>Object.assign(target, source)\<close>: every own property of the source is
  set on the target, so the source wins where both have the key.\<close>

definition Object_assign :: "obj \<Rightarrow> obj \<Rightarrow> obj" where
  "Object_assign target source = target ++ source"

section \<open>Options\<close>

text \<open>
  \<open>Options\<close> is what the caller passes to the constructor: every field is
  optional (\<open>None\<close>: the key is not supplied). \<open>FinalOptions\<close> is
  \<open>this.opts\<close> after \<open>Object.assign({}, defaultOptions, options)\<close>.
  The store the instance ends up with (\<open>opts.store\<close> when given, otherwise the
  electron-store file named by \<open>electronStoreOptions\<close>) is passed to the
  constructor as an argument.
\<close>

record Options =
  defaultWidth_opt :: "int option"
  defaultHeight_opt :: "int option"
  defaultFrame_opt :: "bool option"
  storeFrameOption_opt :: "bool option"
  dev_opt :: "bool option"
  debounce_opt :: "nat option"
  addMethods_opt :: "bool option"

record FinalOptions =
  defaultWidth :: int
  defaultHeight :: int
  defaultFrame :: bool
  storeFrameOption :: bool
  dev :: bool
  debounce :: nat
  addMethods :: bool

definition or_default :: "'a option \<Rightarrow> 'a \<Rightarrow> 'a" where
  "or_default v d = (case v of None \<Rightarrow> d | Some a \<Rightarrow> a)"

definition defaultOptions :: "Options \<Rightarrow> FinalOptions" where
  "defaultOptions options =
     \<lparr> defaultWidth = 600,
       defaultHeight = 800,
       defaultFrame = True,
       storeFrameOption = (defaultFrame_opt options \<noteq> None),
       dev = False,
       debounce = 500,
       addMethods = True \<rparr>"

definition resolve_options :: "Options \<Rightarrow> FinalOptions" where
  "resolve_options options =
     (let d = defaultOptions options in
      \<lparr> defaultWidth = or_default (defaultWidth_opt options) (defaultWidth d),
        defaultHeight = or_default (defaultHeight_opt options) (defaultHeight d),
        defaultFrame = or_default (defaultFrame_opt options) (defaultFrame d),
        storeFrameOption = or_default (storeFrameOption_opt options) (storeFrameOption d),
        dev = or_default (dev_opt options) (dev d),
        debounce = or_default (debounce_opt options) (debounce d),
        addMethods = or_default (addMethods_opt options) (addMethods d) \<rparr>)"

section \<open>The persistent store\<close>

text \<open>
  Modelled from the spec: the persistent store (electron-store, an external
  collaborator whose code is not part of the repository) is a key-value capability.
  The \<open>store\<close> getter returns the whole content, \<open>set(object)\<close> sets every
  property of the object and keeps the other keys, \<open>clear()\<close> deletes every
  item. \<open>set_log\<close> records the argument of every \<open>set\<close> call, oldest
  first, so that the number of writes can be observed.
\<close>

record Store =
  contents :: obj
  set_log :: "obj list"

definition store_get :: "Store \<Rightarrow> obj" where
  "store_get st = contents st"

definition store_set :: "Store \<Rightarrow> obj \<Rightarrow> Store" where
  "store_set st ob = st\<lparr> contents := contents st ++ ob, set_log := set_log st @ [ob] \<rparr>"

definition store_clear :: "Store \<Rightarrow> Store" where
  "store_clear st = st\<lparr> contents := Map.empty \<rparr>"

section \<open>The WinState instance\<close>

text \<open>The four fields of the class; \<open>win\<close> is the identity of the managed
  window, \<open>None\<close> when \<open>this.win\<close> is undefined.\<close>

record WinState =
  opts :: FinalOptions
  store :: Store
  state :: obj
  win :: "nat option"

definition getState :: "'a WinState_scheme \<Rightarrow> obj" where
  "getState s =
     (let stored = store_get (store s);
          defaults =
            Object_assign [''width'' \<mapsto> Num (defaultWidth (opts s)),
                           ''height'' \<mapsto> Num (defaultHeight (opts s))]
              (if storeFrameOption (opts s)
               then [''frame'' \<mapsto> Bool (defaultFrame (opts s))]
               else Map.empty)
      in Object_assign (Object_assign Map.empty defaults) stored)"

definition WinState_new :: "Options \<Rightarrow> Store \<Rightarrow> WinState" where
  "WinState_new options st =
     (let this = \<lparr> opts = resolve_options options, store = st,
                    state = Map.empty, win = None \<rparr>
      in this\<lparr> state := getState this \<rparr>)"

definition saveState :: "'a WinState_scheme \<Rightarrow> 'a WinState_scheme" where
  "saveState s = s\<lparr> store := store_set (store s) (state s) \<rparr>"

definition changeFrame :: "bool \<Rightarrow> 'a WinState_scheme \<Rightarrow> 'a WinState_scheme" where
  "changeFrame v s = saveState (s\<lparr> state := (state s)(''frame'' \<mapsto> Bool v) \<rparr>)"

definition reset :: "'a WinState_scheme \<Rightarrow> 'a WinState_scheme" where
  "reset s = s\<lparr> store := store_clear (store s) \<rparr>"

text \<open>The getters \<open>width\<close>, \<open>height\<close>, \<open>frame\<close>, \<open>x\<close>, \<open>y\<close> and
  \<open>winOptions\<close>.\<close>

definition get_width :: "'a WinState_scheme \<Rightarrow> jsval" where
  "get_width s = get_prop (state s) ''width''"

definition get_height :: "'a WinState_scheme \<Rightarrow> jsval" where
  "get_height s = get_prop (state s) ''height''"

definition get_frame :: "'a WinState_scheme \<Rightarrow> jsval" where
  "get_frame s = get_prop (state s) ''frame''"

definition get_x :: "'a WinState_scheme \<Rightarrow> jsval" where
  "get_x s = get_prop (state s) ''x''"

definition get_y :: "'a WinState_scheme \<Rightarrow> jsval" where
  "get_y s = get_prop (state s) ''y''"

definition winOptions :: "'a WinState_scheme \<Rightarrow> obj" where
  "winOptions s =
     Object_assign
       (Object_assign [''width'' \<mapsto> get_width s, ''height'' \<mapsto> get_height s]
          (if storeFrameOption (opts s) then [''frame'' \<mapsto> get_frame s] else Map.empty))
       [''x'' \<mapsto> get_x s, ''y'' \<mapsto> get_y s]"

text \<open>The defaults record in the words of the specification: \<open>width\<close> and
  \<open>height\<close> always, \<open>frame\<close> only when \<open>storeFrameOption\<close> is set.\<close>

definition defaults_record :: "FinalOptions \<Rightarrow> string \<Rightarrow> jsval option" where
  "defaults_record fo k =
     (if k = ''width'' then Some (Num (defaultWidth fo))
      else if k = ''height'' then Some (Num (defaultHeight fo))
      else if k = ''frame'' \<and> storeFrameOption fo then Some (Bool (defaultFrame fo))
      else None)"

section \<open>Windows, listeners and timers\<close>

text \<open>
  A window query can throw (the window was destroyed): its result is a sum,
  \<open>Inl\<close> the exception. A \<open>Rectangle\<close> is what \<open>getBounds()\<close> returns.
\<close>

datatype error = Error string

record Rectangle =
  rect_x :: int
  rect_y :: int
  rect_width :: int
  rect_height :: int

datatype event = Maximize | Resize | Move | Close | Closed

text \<open>
  Function objects are compared by identity when a listener is removed, so each
  one carries the number it was created with. \<open>Debounced i\<close> is a wrapper
  returned by \<open>debounce(() => this.changeHandler(), this.opts.debounce)\<close>,
  \<open>CloseArrow i\<close> an arrow \<open>() => this.closeHandler()\<close>.
\<close>

datatype fn = Debounced nat | CloseArrow nat

text \<open>
  A window handle: its listeners in the order they were added, what its three
  queries currently answer, and the names of the methods attached to it.
\<close>

record BrowserWindow =
  listeners :: "(event \<times> fn) list"
  getBounds :: "error + Rectangle"
  isMinimized :: "error + bool"
  isFullScreen :: "error + bool"
  methods :: "string list"

text \<open>
  The instance together with its environment: the windows by identity, the
  counter that numbers new function objects, the pending timers of the debounced
  wrappers as (deadline, wrapper) pairs, the current time in milliseconds, and the
  log of timer callbacks that have run, as (time, wrapper) pairs.
\<close>

record world = WinState +
  windows :: "nat \<Rightarrow> BrowserWindow"
  next_fn :: nat
  timers :: "(nat \<times> nat) list"
  clock :: nat
  fired :: "(nat \<times> nat) list"

text \<open>
  Modelled from the spec: the window's event subscription (the event emitter of the
  host, not part of the repository). \<open>on(event, f)\<close> appends the listener;
  \<open>removeListener(event, f)\<close> removes the most recently added listener of the
  event that is referentially the same function object, and does nothing when there
  is none.
\<close>

definition remove_last :: "'a \<Rightarrow> 'a list \<Rightarrow> 'a list" where
  "remove_last a xs = rev (remove1 a (rev xs))"

definition win_on :: "nat \<Rightarrow> event \<Rightarrow> fn \<Rightarrow> world \<Rightarrow> world" where
  "win_on w e f s =
     s\<lparr> windows := (windows s)(w := (windows s w)\<lparr> listeners := listeners (windows s w) @ [(e, f)] \<rparr>) \<rparr>"

definition win_removeListener :: "nat \<Rightarrow> event \<Rightarrow> fn \<Rightarrow> world \<Rightarrow> world" where
  "win_removeListener w e f s =
     s\<lparr> windows := (windows s)(w := (windows s w)\<lparr> listeners := remove_last (e, f) (listeners (windows s w)) \<rparr>) \<rparr>"

definition attach_methods :: "nat \<Rightarrow> world \<Rightarrow> world" where
  "attach_methods w s =
     s\<lparr> windows := (windows s)(w := (windows s w)\<lparr> methods :=
          List.insert ''getStoredWinOptions'' (List.insert ''setFramed''
            (List.insert ''resetWindowToDefault'' (methods (windows s w)))) \<rparr>) \<rparr>"

section \<open>manage, unmanage and the handlers\<close>

definition manage :: "nat \<Rightarrow> world \<Rightarrow> world" where
  "manage w s0 =
     (let n = next_fn s0;
          s = s0\<lparr> win := Some w \<rparr>;
          s = win_on w Maximize (Debounced n) s;
          s = win_on w Resize (Debounced (n + 1)) s;
          s = win_on w Move (Debounced (n + 2)) s;
          s = win_on w Close (CloseArrow (n + 3)) s;
          s = win_on w Closed (CloseArrow (n + 4)) s;
          s = s\<lparr> next_fn := n + 5 \<rparr>
      in if addMethods (opts s) then attach_methods w s else s)"

definition unmanage :: "world \<Rightarrow> world" where
  "unmanage s0 =
     (case win s0 of
        None \<Rightarrow> s0
      | Some w \<Rightarrow>
          (let n = next_fn s0;
               s = win_removeListener w Resize (Debounced n) s0;
               s = win_removeListener w Move (Debounced (n + 1)) s;
               s = win_removeListener w Close (CloseArrow (n + 2)) s;
               s = win_removeListener w Closed (CloseArrow (n + 3)) s
           in s\<lparr> next_fn := n + 4, win := None \<rparr>))"

definition isNormal :: "world \<Rightarrow> error + bool" where
  "isNormal s =
     (case win s of
        None \<Rightarrow> Inr True
      | Some w \<Rightarrow>
          (case isMinimized (windows s w) of
             Inl e \<Rightarrow> Inl e
           | Inr True \<Rightarrow> Inr False
           | Inr False \<Rightarrow>
               (case isFullScreen (windows s w) of
                  Inl e \<Rightarrow> Inl e
                | Inr fs \<Rightarrow> Inr (\<not> fs))))"

text \<open>The body of the \<open>try\<close> block of \<open>changeHandler\<close>: \<open>Inl\<close> when a
  query throws.\<close>

definition changeHandler_try :: "world \<Rightarrow> error + world" where
  "changeHandler_try s =
     (case win s of
        None \<Rightarrow> Inr s
      | Some w \<Rightarrow>
          (case getBounds (windows s w) of
             Inl e \<Rightarrow> Inl e
           | Inr winBounds \<Rightarrow>
               (case isNormal s of
                  Inl e \<Rightarrow> Inl e
                | Inr normal \<Rightarrow>
                    (let s1 =
                       (if normal
                        then s\<lparr> state := (state s)
                               (''x'' \<mapsto> Num (if rect_x winBounds \<ge> 0 then rect_x winBounds else 0),
                                ''y'' \<mapsto> Num (if rect_y winBounds \<ge> 0 then rect_y winBounds else 0),
                                ''width'' \<mapsto> Num (rect_width winBounds),
                                ''height'' \<mapsto> Num (rect_height winBounds)) \<rparr>
                        else s)
                     in Inr (if dev (opts s1) then saveState s1 else s1)))))"

text \<open>\<open>changeHandler\<close> with its \<open>catch\<close>: the result is \<open>Inl\<close> only if an
  exception leaves the method.\<close>

definition changeHandler :: "world \<Rightarrow> error + world" where
  "changeHandler s =
     (case changeHandler_try s of
        Inl err \<Rightarrow> Inr s
      | Inr s' \<Rightarrow> Inr s')"

definition closeHandler :: "world \<Rightarrow> world" where
  "closeHandler s = saveState (unmanage s)"

section \<open>Event delivery and the passing of time\<close>

text \<open>
  Modelled from the spec: the coalescer (the \<open>debounce\<close> package, not part of
  the repository). Each call of a debounced wrapper resets its pending timer: a call
  at time \<open>t\<close> replaces the timer by one due at \<open>t + delay\<close>, and the wrapped
  handler runs only when that timer comes due (trailing edge). Calling a close arrow
  runs \<open>closeHandler\<close>. \<open>emit\<close> calls the listeners of the event in the order
  they were added, from a copy of the list taken before the first call.
\<close>

definition arm :: "nat \<Rightarrow> nat \<Rightarrow> (nat \<times> nat) list \<Rightarrow> (nat \<times> nat) list" where
  "arm i deadline ts = filter (\<lambda>p. snd p \<noteq> i) ts @ [(deadline, i)]"

definition invoke :: "fn \<Rightarrow> world \<Rightarrow> world" where
  "invoke f s =
     (case f of
        Debounced i \<Rightarrow> s\<lparr> timers := arm i (clock s + debounce (opts s)) (timers s) \<rparr>
      | CloseArrow i \<Rightarrow> closeHandler s)"

definition listeners_of :: "world \<Rightarrow> nat \<Rightarrow> event \<Rightarrow> fn list" where
  "listeners_of s w e = map snd (filter (\<lambda>p. fst p = e) (listeners (windows s w)))"

definition emit :: "nat \<Rightarrow> event \<Rightarrow> world \<Rightarrow> world" where
  "emit w e s = fold invoke (listeners_of s w e) s"

text \<open>A timer that comes due runs the wrapped arrow \<open>() => this.changeHandler()\<close>.
  The callbacks never arm a timer, so the timers due within a span of time run
  in the order of their deadlines.\<close>

definition fire :: "nat \<times> nat \<Rightarrow> world \<Rightarrow> error + world" where
  "fire p s = changeHandler (s\<lparr> clock := fst p, fired := fired s @ [p] \<rparr>)"

fun run_timers :: "(nat \<times> nat) list \<Rightarrow> world \<Rightarrow> error + world" where
  "run_timers [] s = Inr s"
| "run_timers (p # ps) s =
     (case fire p s of Inl e \<Rightarrow> Inl e | Inr s' \<Rightarrow> run_timers ps s')"

definition elapse :: "nat \<Rightarrow> world \<Rightarrow> error + world" where
  "elapse dt s =
     (let t = clock s + dt;
          due = sort_key fst (filter (\<lambda>p. fst p \<le> t) (timers s));
          s1 = s\<lparr> timers := filter (\<lambda>p. \<not> fst p \<le> t) (timers s) \<rparr>
      in case run_timers due s1 of
           Inl e \<Rightarrow> Inl e
         | Inr s2 \<Rightarrow> Inr (s2\<lparr> clock := t \<rparr>))"

text \<open>What can happen to an instance and its windows, one action at a time.\<close>

datatype action =
    Manage nat
  | Unmanage
  | ChangeFrame bool
  | Reset
  | SaveState
  | Emit nat event
  | Elapse nat
  | Bounds nat "error + Rectangle"
  | Minimized nat "error + bool"
  | FullScreen nat "error + bool"

definition step :: "action \<Rightarrow> world \<Rightarrow> error + world" where
  "step a s =
     (case a of
        Manage w \<Rightarrow> Inr (manage w s)
      | Unmanage \<Rightarrow> Inr (unmanage s)
      | ChangeFrame v \<Rightarrow> Inr (changeFrame v s)
      | Reset \<Rightarrow> Inr (reset s)
      | SaveState \<Rightarrow> Inr (saveState s)
      | Emit w e \<Rightarrow> Inr (emit w e s)
      | Elapse dt \<Rightarrow> elapse dt s
      | Bounds w r \<Rightarrow> Inr (s\<lparr> windows := (windows s)(w := (windows s w)\<lparr> getBounds := r \<rparr>) \<rparr>)
      | Minimized w b \<Rightarrow> Inr (s\<lparr> windows := (windows s)(w := (windows s w)\<lparr> isMinimized := b \<rparr>) \<rparr>)
      | FullScreen w b \<Rightarrow> Inr (s\<lparr> windows := (windows s)(w := (windows s w)\<lparr> isFullScreen := b \<rparr>) \<rparr>))"

fun run :: "action list \<Rightarrow> world \<Rightarrow> error + world" where
  "run [] s = Inr s"
| "run (a # as) s = (case step a s of Inl e \<Rightarrow> Inl e | Inr s' \<Rightarrow> run as s')"

text \<open>A new window, and a new instance in an environment of windows.\<close>

definition new_window :: "Rectangle \<Rightarrow> BrowserWindow" where
  "new_window r =
     \<lparr> listeners = [], getBounds = Inr r, isMinimized = Inr False,
       isFullScreen = Inr False, methods = [] \<rparr>"

definition new_world :: "Options \<Rightarrow> Store \<Rightarrow> (nat \<Rightarrow> BrowserWindow) \<Rightarrow> world" where
  "new_world options st ws =
     (let this = WinState_new options st
      in \<lparr> opts = opts this, store = store this, state = state this, win = win this,
           windows = ws, next_fn = 0, timers = [], clock = 0, fired = [] \<rparr>)"

section \<open>Predicates and example inputs\<close>

text \<open>The stored window handle, when there is one, has a listener for each of the
  five events.\<close>

definition all_events :: "event list" where
  "all_events = [Maximize, Resize, Move, Close, Closed]"

definition bound_listening :: "world \<Rightarrow> bool" where
  "bound_listening s =
     (case win s of None \<Rightarrow> True
      | Some w \<Rightarrow> list_all (\<lambda>e. listeners_of s w e \<noteq> []) all_events)"

text \<open>Those of the given windows that carry at least one listener.\<close>

definition windows_with_listeners :: "world \<Rightarrow> nat list \<Rightarrow> nat list" where
  "windows_with_listeners s ws = filter (\<lambda>w. listeners (windows s w) \<noteq> []) ws"

text \<open>The number a function object was created with.\<close>

definition fn_id :: "fn \<Rightarrow> nat" where
  "fn_id f = (case f of Debounced i \<Rightarrow> i | CloseArrow i \<Rightarrow> i)"

text \<open>A burst of notifications of one event on one window: each notification
  arrives some milliseconds after the previous one, with the bounds the window has
  at that moment.\<close>

definition burst_actions :: "nat \<Rightarrow> event \<Rightarrow> (nat \<times> Rectangle) list \<Rightarrow> action list" where
  "burst_actions w e ns =
     concat (map (\<lambda>n. [Elapse (fst n), Bounds w (Inr (snd n)), Emit w e]) ns)"

definition with_bounds :: "nat \<Rightarrow> Rectangle \<Rightarrow> world \<Rightarrow> world" where
  "with_bounds w r s = s\<lparr> windows := (windows s)(w := (windows s w)\<lparr> getBounds := Inr r \<rparr>) \<rparr>"

text \<open>Concrete inputs: an instance created with no options, an empty store, a
  store seeded with a record, an instance with defaults 800 by 600 among windows at
  \<open>x = -50\<close>, \<open>y = 30\<close>, and variants of it with a destroyed and with a
  minimized window.\<close>

definition no_options :: Options where
  "no_options = \<lparr> defaultWidth_opt = None, defaultHeight_opt = None, defaultFrame_opt = None,
     storeFrameOption_opt = None, dev_opt = None, debounce_opt = None, addMethods_opt = None \<rparr>"

definition empty_store :: Store where
  "empty_store = \<lparr> contents = Map.empty, set_log = [] \<rparr>"

definition seeded_store :: Store where
  "seeded_store = \<lparr> contents = [''width'' \<mapsto> Num 1024, ''x'' \<mapsto> Num 10], set_log = [] \<rparr>"

definition demo_world :: world where
  "demo_world =
     new_world (no_options\<lparr> defaultWidth_opt := Some 800, defaultHeight_opt := Some 600 \<rparr>)
       empty_store
       (\<lambda>w. new_window \<lparr> rect_x = - 50, rect_y = 30, rect_width = 640, rect_height = 480 \<rparr>)"

definition destroyed_world :: world where
  "destroyed_world =
     (manage 0 demo_world)\<lparr> windows := (windows (manage 0 demo_world))
        (0 := (windows (manage 0 demo_world) 0)\<lparr>
            getBounds := Inl (Error ''Object has been destroyed''),
            isMinimized := Inl (Error ''Object has been destroyed''),
            isFullScreen := Inl (Error ''Object has been destroyed'') \<rparr>) \<rparr>"

definition minimized_world :: world where
  "minimized_world =
     (manage 0 demo_world)\<lparr> windows := (windows (manage 0 demo_world))
        (0 := (windows (manage 0 demo_world) 0)\<lparr> isMinimized := Inr True \<rparr>) \<rparr>"

definition demo_burst :: "(nat \<times> Rectangle) list" where
  "demo_burst =
     [(100, \<lparr> rect_x = 5, rect_y = 5, rect_width = 700, rect_height = 500 \<rparr>),
      (200, \<lparr> rect_x = 0, rect_y = 10, rect_width = 900, rect_height = 600 \<rparr>),
      (400, \<lparr> rect_x = - 20, rect_y = 40, rect_width = 1024, rect_height = 768 \<rparr>)]"

section \<open>Reading the state: getState\<close>

lemma getState_lookup:
  "getState s k =
     (case contents (store s) k of Some v \<Rightarrow> Some v | None \<Rightarrow> defaults_record (opts s) k)"
  by (simp add: getState_def Object_assign_def store_get_def defaults_record_def
      map_add_def split: option.splits)

lemma defaults_record_eq:
  "getState s = defaults_record (opts s) ++ contents (store s)"
  by (rule ext) (simp add: getState_lookup map_add_def split: option.splits)

lemma changeFrame_store:
  "contents (store (changeFrame v s)) = contents (store s) ++ (state s)(''frame'' \<mapsto> Bool v)"
  by (simp add: changeFrame_def saveState_def store_set_def)

lemma WinState_new_simps:
  "opts (WinState_new options st) = resolve_options options"
  "store (WinState_new options st) = st"
  "state (WinState_new options st) = defaults_record (resolve_options options) ++ contents st"
  "win (WinState_new options st) = None"
  by (simp_all add: WinState_new_def Let_def defaults_record_eq)

lemma winOptions_lookup:
  "winOptions s k =
    (if k = ''x'' then Some (get_x s) else if k = ''y'' then Some (get_y s)
     else if k = ''frame'' \<and> storeFrameOption (opts s) then Some (get_frame s)
     else if k = ''width'' then Some (get_width s)
     else if k = ''height'' then Some (get_height s) else None)"
  by (simp add: winOptions_def Object_assign_def map_add_def)

section \<open>The change handler\<close>

lemma changeHandler_returns: "\<exists>s'. changeHandler s = Inr s'"
  by (simp add: changeHandler_def split: sum.splits)

lemma changeHandler_caught: "changeHandler_try s = Inl e \<Longrightarrow> changeHandler s = Inr s"
  by (simp add: changeHandler_def)

lemma changeHandler_try_frame:
  assumes "changeHandler_try s = Inr s'"
  shows "win s' = win s" "windows s' = windows s" "timers s' = timers s" "next_fn s' = next_fn s"
    "opts s' = opts s" "clock s' = clock s" "fired s' = fired s"
  using assms
  by (auto simp: changeHandler_try_def saveState_def Let_def split: option.splits sum.splits if_splits)

lemma changeHandler_frame:
  assumes "changeHandler s = Inr s'"
  shows "win s' = win s" "windows s' = windows s" "timers s' = timers s" "next_fn s' = next_fn s"
    "opts s' = opts s" "clock s' = clock s" "fired s' = fired s"
  using assms changeHandler_try_frame[of s s']
  by (auto simp: changeHandler_def split: sum.splits)

lemma changeHandler_normal:
  assumes "win s = Some w" "getBounds (windows s w) = Inr b"
    "isMinimized (windows s w) = Inr False" "isFullScreen (windows s w) = Inr False"
  shows "\<exists>s'. changeHandler s = Inr s' \<and>
     state s' = (state s)(''x'' \<mapsto> Num (max (rect_x b) 0), ''y'' \<mapsto> Num (max (rect_y b) 0),
        ''width'' \<mapsto> Num (rect_width b), ''height'' \<mapsto> Num (rect_height b))"
  using assms
  by (simp add: changeHandler_def changeHandler_try_def isNormal_def saveState_def Let_def max_def)

lemma changeHandler_state_cases:
  assumes "changeHandler s = Inr s'"
  shows "state s' = state s \<or>
    (\<exists>w b. win s = Some w \<and> getBounds (windows s w) = Inr b \<and>
       isMinimized (windows s w) = Inr False \<and> isFullScreen (windows s w) = Inr False)"
  using assms
  by (auto simp: changeHandler_def changeHandler_try_def isNormal_def saveState_def Let_def
      split: option.splits sum.splits if_splits bool.splits)

lemma changeHandler_not_normal:
  assumes "changeHandler s = Inr s'" "win s = Some w"
    "isMinimized (windows s w) = Inr True \<or> isFullScreen (windows s w) = Inr True"
  shows "state s' = state s"
  using changeHandler_state_cases[OF assms(1)] assms(2,3) by auto

section \<open>Binding and unbinding\<close>

lemma win_manage: "win (manage w s) = Some w"
  by (simp add: manage_def Let_def win_on_def attach_methods_def)

lemma win_unmanage: "win (unmanage s) = None"
  by (simp add: unmanage_def Let_def win_removeListener_def split: option.splits)

lemma unmanage_unbound: "win s = None \<Longrightarrow> unmanage s = s"
  by (simp add: unmanage_def)

lemma unmanage_idem: "unmanage (unmanage s) = unmanage s"
  by (simp add: unmanage_unbound win_unmanage)

lemma state_unmanage: "state (unmanage s) = state s"
  by (simp add: unmanage_def Let_def win_removeListener_def split: option.splits)

lemma win_closeHandler: "win (closeHandler s) = None"
  by (simp add: closeHandler_def saveState_def win_unmanage)

lemma state_closeHandler: "state (closeHandler s) = state s"
  by (simp add: closeHandler_def saveState_def state_unmanage)

text \<open>When every listener of a window was created before now, the function
  objects that \<open>unmanage\<close> creates are none of them, and nothing is removed.\<close>

lemma remove_last_absent: "a \<notin> set xs \<Longrightarrow> remove_last a xs = xs"
  by (simp add: remove_last_def remove1_idem)

lemma unmanage_removes_nothing:
  assumes "\<forall>p\<in>set (listeners (windows s w)). fn_id (snd p) < next_fn s"
  shows "listeners (windows (unmanage s) w) = listeners (windows s w)"
proof (cases "win s")
  case None
  then show ?thesis by (simp add: unmanage_def)
next
  case (Some v)
  have fresh: "(e, f) \<notin> set (listeners (windows s w))" if "next_fn s \<le> fn_id f" for e f
    using assms that by force
  show ?thesis
  proof (cases "v = w")
    case True
    with Some show ?thesis
      by (simp add: unmanage_def Let_def win_removeListener_def remove_last_absent fresh fn_id_def)
  next
    case False
    with Some show ?thesis
      by (simp add: unmanage_def Let_def win_removeListener_def)
  qed
qed

lemma bound_listening_manage: "bound_listening (manage w s)"
  by (simp add: bound_listening_def manage_def Let_def win_on_def attach_methods_def
      listeners_of_def all_events_def)

lemma bound_listening_unbound: "win s = None \<Longrightarrow> bound_listening s"
  by (simp add: bound_listening_def)

lemma bound_listening_same:
  "bound_listening s \<Longrightarrow> win s' = win s \<Longrightarrow>
   (\<And>w. listeners (windows s' w) = listeners (windows s w)) \<Longrightarrow> bound_listening s'"
  by (simp add: bound_listening_def listeners_of_def split: option.splits)

lemma bound_listening_invoke: "bound_listening s \<Longrightarrow> bound_listening (invoke f s)"
proof (cases f)
  case (Debounced i)
  assume "bound_listening s"
  then show ?thesis
    unfolding Debounced invoke_def by (rule bound_listening_same) simp_all
next
  case (CloseArrow i)
  then show ?thesis by (simp add: invoke_def bound_listening_unbound win_closeHandler)
qed

lemma bound_listening_fold_invoke: "bound_listening s \<Longrightarrow> bound_listening (fold invoke fs s)"
  by (induction fs arbitrary: s) (simp_all add: bound_listening_invoke)

lemma state_invoke: "state (invoke f s) = state s"
  by (cases f) (simp_all add: invoke_def state_closeHandler)

lemma state_fold_invoke: "state (fold invoke fs s) = state s"
  by (induction fs arbitrary: s) (simp_all add: state_invoke)

section \<open>Runs of actions\<close>

lemma run_timers_returns: "\<exists>s'. run_timers ps s = Inr s'"
proof (induction ps arbitrary: s)
  case Nil
  then show ?case by simp
next
  case (Cons p ps)
  obtain s1 where "fire p s = Inr s1"
    using changeHandler_returns by (auto simp: fire_def)
  with Cons show ?case by simp
qed

lemma fire_frame:
  assumes "fire p s = Inr s'"
  shows "win s' = win s" "windows s' = windows s"
  using changeHandler_frame[OF assms[unfolded fire_def]] by simp_all

lemma run_timers_frame:
  "run_timers ps s = Inr s' \<Longrightarrow> win s' = win s \<and> windows s' = windows s"
proof (induction ps arbitrary: s)
  case Nil
  then show ?case by simp
next
  case (Cons p ps)
  then show ?case
    by (auto split: sum.splits dest: fire_frame)
qed

lemma elapse_returns: "\<exists>s'. elapse dt s = Inr s'"
  using run_timers_returns by (simp add: elapse_def Let_def split: sum.splits) (metis sum.distinct(1) old.sum.exhaust)

lemma elapse_frame:
  "elapse dt s = Inr s' \<Longrightarrow> win s' = win s \<and> windows s' = windows s"
  by (auto simp: elapse_def Let_def split: sum.splits dest!: run_timers_frame)

lemma step_returns: "\<exists>s'. step a s = Inr s'"
  by (cases a) (simp_all add: step_def elapse_returns)

lemma run_returns: "\<exists>s'. run as s = Inr s'"
proof (induction as arbitrary: s)
  case Nil
  then show ?case by simp
next
  case (Cons a as)
  obtain s1 where "step a s = Inr s1" using step_returns by blast
  with Cons show ?case by simp
qed

lemma bound_listening_step:
  assumes "bound_listening s" "step a s = Inr s'"
  shows "bound_listening s'"
proof (cases a)
  case (Manage w)
  with assms show ?thesis by (auto simp: step_def bound_listening_manage)
next
  case Unmanage
  with assms show ?thesis by (auto simp: step_def bound_listening_unbound win_unmanage)
next
  case (ChangeFrame v)
  with assms(2) have "s' = changeFrame v s" by (simp add: step_def)
  with assms(1) show ?thesis
    by (elim bound_listening_same) (simp_all add: changeFrame_def saveState_def)
next
  case Reset
  with assms(2) have "s' = reset s" by (simp add: step_def)
  with assms(1) show ?thesis
    by (elim bound_listening_same) (simp_all add: reset_def)
next
  case SaveState
  with assms(2) have "s' = saveState s" by (simp add: step_def)
  with assms(1) show ?thesis
    by (elim bound_listening_same) (simp_all add: saveState_def)
next
  case (Emit w e)
  with assms show ?thesis by (auto simp: step_def emit_def bound_listening_fold_invoke)
next
  case (Elapse dt)
  with assms have "elapse dt s = Inr s'" by (simp add: step_def)
  from elapse_frame[OF this] assms(1) show ?thesis
    by (elim bound_listening_same) simp_all
next
  case (Bounds w r)
  with assms(2) have "s' = s\<lparr> windows := (windows s)(w := (windows s w)\<lparr> getBounds := r \<rparr>) \<rparr>"
    by (simp add: step_def)
  with assms(1) show ?thesis
    by (elim bound_listening_same) simp_all
next
  case (Minimized w b)
  with assms(2) have "s' = s\<lparr> windows := (windows s)(w := (windows s w)\<lparr> isMinimized := b \<rparr>) \<rparr>"
    by (simp add: step_def)
  with assms(1) show ?thesis
    by (elim bound_listening_same) simp_all
next
  case (FullScreen w b)
  with assms(2) have "s' = s\<lparr> windows := (windows s)(w := (windows s w)\<lparr> isFullScreen := b \<rparr>) \<rparr>"
    by (simp add: step_def)
  with assms(1) show ?thesis
    by (elim bound_listening_same) simp_all
qed

lemma bound_listening_run:
  "bound_listening s \<Longrightarrow> run as s = Inr s' \<Longrightarrow> bound_listening s'"
proof (induction as arbitrary: s)
  case Nil
  then show ?case by simp
next
  case (Cons a as)
  then show ?case by (auto split: sum.splits dest: bound_listening_step)
qed

lemma state_step_not_elapse:
  assumes "step a t = Inr t'" "\<forall>dt. a \<noteq> Elapse dt"
  shows "state t' ''x'' = state t ''x'' \<and> state t' ''y'' = state t ''y''"
  using assms
  by (cases a)
    (auto simp: step_def manage_def Let_def win_on_def attach_methods_def state_unmanage
      changeFrame_def saveState_def reset_def emit_def state_fold_invoke)

lemma run_append:
  "run (as @ bs) s = (case run as s of Inl e \<Rightarrow> Inl e | Inr s' \<Rightarrow> run bs s')"
  by (induction as arbitrary: s) (simp_all split: sum.splits)

section \<open>Bursts of notifications\<close>

lemma elapse_nothing_due:
  assumes "\<forall>p\<in>set (timers s). clock s + dt < fst p"
  shows "elapse dt s = Inr (s\<lparr> clock := clock s + dt \<rparr>)"
proof -
  have a: "filter (\<lambda>p. fst p \<le> clock s + dt) (timers s) = []"
    using assms by (auto simp: filter_empty_conv)
  have b: "filter (\<lambda>p. \<not> fst p \<le> clock s + dt) (timers s) = timers s"
    using assms by (auto simp: filter_id_conv)
  show ?thesis by (simp add: elapse_def Let_def a b)
qed

lemma notify_step:
  assumes L: "listeners_of s w e = [Debounced i]"
    and T: "timers s = [] \<or> (\<exists>dl. timers s = [(dl, i)] \<and> clock s + gap < dl)"
  shows "run [Elapse gap, Bounds w (Inr r), Emit w e] s =
     Inr (s\<lparr> clock := clock s + gap,
             windows := (windows s)(w := (windows s w)\<lparr> getBounds := Inr r \<rparr>),
             timers := [(clock s + gap + debounce (opts s), i)] \<rparr>)"
proof -
  have nd: "\<forall>p\<in>set (timers s). clock s + gap < fst p" using T by auto
  have arm: "arm i d (timers s) = [(d, i)]" for d using T by (auto simp: arm_def)
  have L': "listeners_of (s\<lparr> clock := clock s + gap,
             windows := (windows s)(w := (windows s w)\<lparr> getBounds := Inr r \<rparr>) \<rparr>) w e = [Debounced i]"
    using L by (simp add: listeners_of_def)
  show ?thesis
    by (simp add: step_def elapse_nothing_due[OF nd] emit_def L' invoke_def arm)
qed

lemma burst_pending:
  assumes "listeners_of s w e = [Debounced i]"
    and "timers s = [(clock s + debounce (opts s), i)]"
    and "\<forall>g\<in>set (map fst ns). g < debounce (opts s)"
  shows "run (burst_actions w e ns) s =
     Inr (if ns = [] then s else
          s\<lparr> clock := clock s + sum_list (map fst ns),
             windows := (windows s)(w := (windows s w)\<lparr> getBounds := Inr (snd (last ns)) \<rparr>),
             timers := [(clock s + sum_list (map fst ns) + debounce (opts s), i)] \<rparr>)"
  using assms
proof (induction ns arbitrary: s)
  case Nil
  then show ?case by (simp add: burst_actions_def)
next
  case (Cons n ns)
  let ?s1 = "s\<lparr> clock := clock s + fst n,
             windows := (windows s)(w := (windows s w)\<lparr> getBounds := Inr (snd n) \<rparr>),
             timers := [(clock s + fst n + debounce (opts s), i)] \<rparr>"
  have g: "fst n < debounce (opts s)" using Cons.prems(3) by simp
  have st: "run [Elapse (fst n), Bounds w (Inr (snd n)), Emit w e] s = Inr ?s1"
    using notify_step[where gap="fst n" and r="snd n", OF Cons.prems(1)] Cons.prems(2) g by simp
  have L1: "listeners_of ?s1 w e = [Debounced i]"
    using Cons.prems(1) by (simp add: listeners_of_def)
  have ih: "run (burst_actions w e ns) ?s1 =
     Inr (if ns = [] then ?s1 else
          ?s1\<lparr> clock := clock ?s1 + sum_list (map fst ns),
             windows := (windows ?s1)(w := (windows ?s1 w)\<lparr> getBounds := Inr (snd (last ns)) \<rparr>),
             timers := [(clock ?s1 + sum_list (map fst ns) + debounce (opts ?s1), i)] \<rparr>)"
    using Cons.prems(3) by (intro Cons.IH[OF L1]) simp_all
  have split: "burst_actions w e (n # ns) =
      [Elapse (fst n), Bounds w (Inr (snd n)), Emit w e] @ burst_actions w e ns"
    by (simp add: burst_actions_def)
  have "run (burst_actions w e (n # ns)) s = run (burst_actions w e ns) ?s1"
    by (simp only: split run_append st sum.case)
  then show ?case
    unfolding ih by (cases "ns = []") (simp_all add: add.assoc)
qed

lemma burst_first:
  assumes L: "listeners_of s w e = [Debounced i]"
    and T: "timers s = []"
    and G: "\<forall>g\<in>set (map fst (tl ns)). g < debounce (opts s)"
    and N: "ns \<noteq> []"
  shows "run (burst_actions w e ns) s =
     Inr (s\<lparr> clock := clock s + sum_list (map fst ns),
             windows := (windows s)(w := (windows s w)\<lparr> getBounds := Inr (snd (last ns)) \<rparr>),
             timers := [(clock s + sum_list (map fst ns) + debounce (opts s), i)] \<rparr>)"
proof -
  obtain n ms where ns: "ns = n # ms" using N by (cases ns) auto
  let ?s1 = "s\<lparr> clock := clock s + fst n,
             windows := (windows s)(w := (windows s w)\<lparr> getBounds := Inr (snd n) \<rparr>),
             timers := [(clock s + fst n + debounce (opts s), i)] \<rparr>"
  have st: "run [Elapse (fst n), Bounds w (Inr (snd n)), Emit w e] s = Inr ?s1"
    using notify_step[where gap="fst n" and r="snd n", OF L] T by simp
  have L1: "listeners_of ?s1 w e = [Debounced i]"
    using L by (simp add: listeners_of_def)
  have rest: "run (burst_actions w e ms) ?s1 =
     Inr (if ms = [] then ?s1 else
          ?s1\<lparr> clock := clock ?s1 + sum_list (map fst ms),
             windows := (windows ?s1)(w := (windows ?s1 w)\<lparr> getBounds := Inr (snd (last ms)) \<rparr>),
             timers := [(clock ?s1 + sum_list (map fst ms) + debounce (opts ?s1), i)] \<rparr>)"
    using G ns by (intro burst_pending[OF L1]) simp_all
  have split: "burst_actions w e (n # ms) =
      [Elapse (fst n), Bounds w (Inr (snd n)), Emit w e] @ burst_actions w e ms"
    by (simp add: burst_actions_def)
  have "run (burst_actions w e (n # ms)) s = run (burst_actions w e ms) ?s1"
    by (simp only: split run_append st sum.case)
  then show ?thesis
    unfolding ns rest by (cases "ms = []") (simp_all add: add.assoc)
qed

lemma elapse_one_due:
  assumes "timers s = [(dl, i)]" "dl \<le> clock s + dt"
  shows "elapse dt s =
     (case changeHandler (s\<lparr> timers := [], clock := dl, fired := fired s @ [(dl, i)] \<rparr>) of
        Inl e \<Rightarrow> Inl e | Inr s' \<Rightarrow> Inr (s'\<lparr> clock := clock s + dt \<rparr>))"
  using assms by (simp add: elapse_def Let_def fire_def split: sum.splits)

section \<open>Evaluating the example inputs\<close>

lemmas demo_defs =
  demo_world_def new_world_def WinState_new_def no_options_def empty_store_def new_window_def
  resolve_options_def defaultOptions_def or_default_def Let_def

lemmas op_defs =
  manage_def unmanage_def win_on_def win_removeListener_def attach_methods_def remove_last_def
  emit_def listeners_of_def invoke_def closeHandler_def saveState_def store_set_def

lemma destroyed_throws:
  "changeHandler_try destroyed_world = Inl (Error ''Object has been destroyed'')"
  by (simp add: destroyed_world_def changeHandler_try_def win_manage)

lemma bound_listening_demo: "bound_listening demo_world"
  by (simp add: bound_listening_def demo_defs)

text \<open>Each of the three events has a wrapper of its own: a resize and a move
  notification 100 ms apart run the handler once for each wrapper.\<close>

lemma mixed_burst_runs_handler_per_wrapper:
  "\<exists>s'. run [Emit 0 Resize, Elapse 100, Emit 0 Move, Elapse 500] (manage 0 demo_world) = Inr s'
     \<and> fired s' = [(500, 1), (600, 2)]"
  by (simp add: step_def elapse_def fire_def changeHandler_def changeHandler_try_def isNormal_def
      arm_def demo_defs op_defs)

section \<open>The claims\<close>

subsection \<open>C1: close followed by closed\<close>

text \<open>
  C1. The claim: when a managed window fires \<open>close\<close> and then \<open>closed\<close>, the state
  record is persisted exactly once, and no listener fires after the first \<open>close\<close>.
  The code at this input: a new instance manages window 0, which emits \<open>close\<close> and
  then \<open>closed\<close>. After \<open>close\<close> the store has been written once, but the
  \<open>closed\<close> listener is still subscribed (\<open>unmanage\<close> hands newly created
  function objects to \<open>removeListener\<close>), so \<open>closed\<close> runs \<open>closeHandler\<close>
  again and the store has been written twice, with the same record.
\<close>

theorem close_then_closed_persists_twice:
  "set_log (store (emit 0 Close (manage 0 demo_world))) = [state (manage 0 demo_world)]
   \<and> listeners_of (emit 0 Close (manage 0 demo_world)) 0 Closed = [CloseArrow 4]
   \<and> set_log (store (emit 0 Closed (emit 0 Close (manage 0 demo_world))))
        = [state (manage 0 demo_world), state (manage 0 demo_world)]
   \<and> length (set_log (store (emit 0 Closed (emit 0 Close (manage 0 demo_world))))) = 2"
  by (simp add: demo_defs op_defs)

subsection \<open>C2: getState overlays the stored record on the defaults\<close>

text \<open>
  C2. For every stored record and every configuration, \<open>getState\<close> returns the
  defaults record (\<open>width\<close> and \<open>height\<close> always, \<open>frame\<close> exactly when
  \<open>storeFrameOption\<close> is set) overlaid by the stored record: a key of the stored
  record keeps its stored value, every other key has its default. The result depends
  only on the configuration and the content of the store, so two calls with no write
  in between return the same record.
\<close>

theorem getState_defaults_overlaid:
  fixes s :: "'a WinState_scheme"
  shows "getState s = defaults_record (opts s) ++ store_get (store s)
   \<and> (\<forall>k v. store_get (store s) k = Some v \<longrightarrow> getState s k = Some v)
   \<and> (\<forall>k. store_get (store s) k = None \<longrightarrow> getState s k = defaults_record (opts s) k)
   \<and> defaults_record (opts s) ''width'' = Some (Num (defaultWidth (opts s)))
   \<and> defaults_record (opts s) ''height'' = Some (Num (defaultHeight (opts s)))
   \<and> (defaults_record (opts s) ''frame'' \<noteq> None \<longleftrightarrow> storeFrameOption (opts s))
   \<and> (\<forall>s' :: 'b WinState_scheme. opts s' = opts s \<and> store_get (store s') = store_get (store s)
          \<longrightarrow> getState s' = getState s)"
proof (intro conjI allI impI)
  show "getState s = defaults_record (opts s) ++ store_get (store s)"
    by (simp add: defaults_record_eq store_get_def)
  show "getState s k = Some v" if "store_get (store s) k = Some v" for k v
    using that by (simp add: getState_lookup store_get_def)
  show "getState s k = defaults_record (opts s) k" if "store_get (store s) k = None" for k
    using that by (simp add: getState_lookup store_get_def)
  show "defaults_record (opts s) ''width'' = Some (Num (defaultWidth (opts s)))"
    by (simp add: defaults_record_def)
  show "defaults_record (opts s) ''height'' = Some (Num (defaultHeight (opts s)))"
    by (simp add: defaults_record_def)
  show "defaults_record (opts s) ''frame'' \<noteq> None \<longleftrightarrow> storeFrameOption (opts s)"
    by (simp add: defaults_record_def)
  show "getState s' = getState s"
    if "opts s' = opts s \<and> store_get (store s') = store_get (store s)" for s' :: "'b WinState_scheme"
    using that by (simp add: defaults_record_eq store_get_def)
qed

theorem getState_defaults_overlaid_witness:
  "getState (WinState_new no_options seeded_store) ''width'' = Some (Num 1024)
   \<and> getState (WinState_new no_options seeded_store) ''height'' = Some (Num 800)
   \<and> getState (WinState_new no_options seeded_store) ''x'' = Some (Num 10)
   \<and> getState (WinState_new no_options seeded_store) ''frame'' = None"
proof -
  have "getState (WinState_new no_options seeded_store) =
      defaults_record (resolve_options no_options) ++ contents seeded_store"
    using getState_defaults_overlaid [of "WinState_new no_options seeded_store"]
    unfolding WinState_new_simps store_get_def by blast
  then show ?thesis
    by (simp add: seeded_store_def defaults_record_def map_add_def
        no_options_def resolve_options_def defaultOptions_def or_default_def)
qed

subsection \<open>C3: unmanage after manage\<close>

text \<open>
  C3. The claim: after \<open>manage(w)\<close> and \<open>unmanage()\<close> the five listeners that
  \<open>manage\<close> subscribed are removed from the window and the stored reference is
  cleared. The code at this input: a new instance manages window 0 and then
  unmanages. The stored reference is cleared, but all five listeners are still
  subscribed: the function objects passed to \<open>removeListener\<close> are created in
  \<open>unmanage\<close> and are not the ones subscribed, and \<open>maximize\<close> is not
  unsubscribed at all.
\<close>

theorem unmanage_leaves_listeners:
  "listeners (windows (unmanage (manage 0 demo_world)) 0) =
     [(Maximize, Debounced 0), (Resize, Debounced 1), (Move, Debounced 2),
      (Close, CloseArrow 3), (Closed, CloseArrow 4)]
   \<and> win (unmanage (manage 0 demo_world)) = None"
  by (simp add: demo_defs op_defs)

subsection \<open>C4: changeFrame(false), then a fresh instance\<close>

text \<open>
  C4, as amended. After \<open>changeFrame(false)\<close>, \<open>getState\<close> of a fresh instance
  over the same store contains \<open>frame: false\<close> whatever \<open>storeFrameOption\<close> is;
  it is \<open>winOptions\<close> of the fresh instance that contains \<open>frame: false\<close> when
  \<open>storeFrameOption\<close> is true and has no \<open>frame\<close> key when it is false.
\<close>

theorem changeFrame_false_fresh_instance:
  fixes s :: "'a WinState_scheme"
  shows "getState (WinState_new options (store (changeFrame False s))) ''frame'' = Some (Bool False)
    \<and> winOptions (WinState_new options (store (changeFrame False s))) ''frame''
        = (if storeFrameOption (resolve_options options) then Some (Bool False) else None)"
  by (simp add: getState_lookup changeFrame_store winOptions_lookup WinState_new_simps get_frame_def get_prop_def)

theorem changeFrame_false_fresh_instance_witness:
  "getState (WinState_new no_options (store (changeFrame False (WinState_new no_options empty_store))))
     ''frame'' = Some (Bool False)
   \<and> winOptions (WinState_new no_options (store (changeFrame False (WinState_new no_options empty_store))))
     ''frame'' = None"
  using changeFrame_false_fresh_instance [of no_options "WinState_new no_options empty_store"]
  by (simp add: no_options_def resolve_options_def defaultOptions_def or_default_def)

text \<open>
  C4 as stated fails: with no options (\<open>storeFrameOption\<close> false) and an empty
  store, \<open>getState\<close> of the fresh instance has the key \<open>frame\<close>.
\<close>

theorem frame_stored_without_storeFrameOption_counterexample:
  "\<not> storeFrameOption (opts (WinState_new no_options
        (store (changeFrame False (WinState_new no_options empty_store)))))
   \<and> getState (WinState_new no_options
        (store (changeFrame False (WinState_new no_options empty_store)))) ''frame'' \<noteq> None"
  by (simp add: getState_lookup changeFrame_store WinState_new_simps no_options_def
      resolve_options_def defaultOptions_def or_default_def)

subsection \<open>C5: no geometry is captured from a minimized or full-screen window\<close>

text \<open>
  C5. For every state, \<open>changeHandler\<close> returns, and when the window reports
  minimized or full-screen the fields \<open>x\<close>, \<open>y\<close>, \<open>width\<close> and \<open>height\<close> of the
  state are what they were before the call. \<open>x\<close> and \<open>y\<close> are written only when
  the window is neither minimized nor full-screen: if \<open>changeHandler\<close> changes one of
  them, both queries answered false; and no other action than the passing of time
  (which runs the debounced \<open>changeHandler\<close>) changes them.
\<close>

theorem changeHandler_keeps_geometry_unless_normal:
  "\<exists>s'. changeHandler s = Inr s'
     \<and> (\<forall>w. win s = Some w
            \<and> (isMinimized (windows s w) = Inr True \<or> isFullScreen (windows s w) = Inr True)
          \<longrightarrow> state s' ''x'' = state s ''x'' \<and> state s' ''y'' = state s ''y''
              \<and> state s' ''width'' = state s ''width'' \<and> state s' ''height'' = state s ''height'')
     \<and> (state s' ''x'' \<noteq> state s ''x'' \<or> state s' ''y'' \<noteq> state s ''y''
          \<longrightarrow> (\<exists>w. win s = Some w \<and> isMinimized (windows s w) = Inr False
                   \<and> isFullScreen (windows s w) = Inr False))
     \<and> (\<forall>a t. (\<forall>dt. a \<noteq> Elapse dt) \<and> step a s = Inr t
          \<longrightarrow> state t ''x'' = state s ''x'' \<and> state t ''y'' = state s ''y'')"
proof -
  obtain s' where s': "changeHandler s = Inr s'" using changeHandler_returns by blast
  have a: "state s' = state s" if "win s = Some w"
      "isMinimized (windows s w) = Inr True \<or> isFullScreen (windows s w) = Inr True" for w
    using changeHandler_not_normal[OF s' that] .
  have b: "\<exists>w. win s = Some w \<and> isMinimized (windows s w) = Inr False
                   \<and> isFullScreen (windows s w) = Inr False"
    if "state s' ''x'' \<noteq> state s ''x'' \<or> state s' ''y'' \<noteq> state s ''y''"
    using changeHandler_state_cases[OF s'] that by auto
  have c: "state t ''x'' = state s ''x'' \<and> state t ''y'' = state s ''y''"
    if "\<forall>dt. a \<noteq> Elapse dt" "step a s = Inr t" for a t
    using state_step_not_elapse[OF that(2) that(1)] .
  show ?thesis
    using s' a b c by (intro exI[of _ s']) (simp, blast)
qed

theorem changeHandler_keeps_geometry_unless_normal_witness:
  "win minimized_world = Some 0 \<and> isMinimized (windows minimized_world 0) = Inr True
   \<and> (\<exists>s'. changeHandler minimized_world = Inr s'
         \<and> state s' ''x'' = None \<and> state s' ''y'' = None
         \<and> state s' ''width'' = Some (Num 800) \<and> state s' ''height'' = Some (Num 600))"
proof -
  have w: "win minimized_world = Some 0" "isMinimized (windows minimized_world 0) = Inr True"
    by (simp_all add: minimized_world_def win_manage)
  have st: "state minimized_world ''x'' = None" "state minimized_world ''y'' = None"
    "state minimized_world ''width'' = Some (Num 800)"
    "state minimized_world ''height'' = Some (Num 600)"
    by (simp_all add: minimized_world_def demo_defs op_defs getState_lookup defaults_record_def)
  from changeHandler_keeps_geometry_unless_normal [of minimized_world] w st
  show ?thesis by auto
qed

subsection \<open>C6: a burst of notifications runs the change handler once\<close>

text \<open>
  C6. A coalesced handler with no pending timer receives a burst of \<open>N \<ge> 1\<close>
  notifications of its event, each after the first less than the debounce delay after
  the previous one; then at least the delay passes with no further notification. The
  run returns, its result is the result of one call of \<open>changeHandler\<close>, made when
  the delay has passed after the last notification, on the window with the bounds of
  the last notification, and exactly one timer callback is logged.
\<close>

theorem debounced_burst_runs_handler_once:
  assumes L: "listeners_of s w e = [Debounced i]"
    and T: "timers s = []"
    and N: "ns \<noteq> []"
    and G: "\<forall>g\<in>set (map fst (tl ns)). g < debounce (opts s)"
    and D: "debounce (opts s) \<le> dt"
  shows "\<exists>s'. changeHandler
            ((with_bounds w (snd (last ns)) s)
               \<lparr> clock := clock s + sum_list (map fst ns) + debounce (opts s),
                 fired := fired s @ [(clock s + sum_list (map fst ns) + debounce (opts s), i)] \<rparr>)
          = Inr s'
     \<and> run (burst_actions w e ns @ [Elapse dt]) s
          = Inr (s'\<lparr> clock := clock s + sum_list (map fst ns) + dt \<rparr>)
     \<and> fired s' = fired s @ [(clock s + sum_list (map fst ns) + debounce (opts s), i)]"
proof -
  let ?t = "clock s + sum_list (map fst ns)"
  let ?sN = "s\<lparr> clock := ?t,
             windows := (windows s)(w := (windows s w)\<lparr> getBounds := Inr (snd (last ns)) \<rparr>),
             timers := [(?t + debounce (opts s), i)] \<rparr>"
  let ?sF = "(with_bounds w (snd (last ns)) s)
               \<lparr> clock := ?t + debounce (opts s),
                 fired := fired s @ [(?t + debounce (opts s), i)] \<rparr>"
  have b: "run (burst_actions w e ns) s = Inr ?sN"
    using burst_first[OF L T G N] .
  obtain s' where s': "changeHandler ?sF = Inr s'" using changeHandler_returns by blast
  have eq: "?sN\<lparr> timers := [], clock := ?t + debounce (opts s),
              fired := fired ?sN @ [(?t + debounce (opts s), i)] \<rparr> = ?sF"
    using T by (simp add: with_bounds_def)
  have "elapse dt ?sN = Inr (s'\<lparr> clock := ?t + dt \<rparr>)"
    using elapse_one_due[of ?sN "?t + debounce (opts s)" i dt] D s'
    unfolding eq[symmetric] by simp
  then have r: "run (burst_actions w e ns @ [Elapse dt]) s = Inr (s'\<lparr> clock := ?t + dt \<rparr>)"
    by (simp add: run_append b step_def)
  have f: "fired s' = fired s @ [(?t + debounce (opts s), i)]"
    using changeHandler_frame(7)[OF s'] by (simp add: with_bounds_def)
  show ?thesis using s' r f by blast
qed

theorem debounced_burst_runs_handler_once_witness:
  "listeners_of (manage 0 demo_world) 0 Resize = [Debounced 1]
   \<and> timers (manage 0 demo_world) = []
   \<and> debounce (opts (manage 0 demo_world)) = 500
   \<and> (\<exists>s'. run (burst_actions 0 Resize demo_burst @ [Elapse 500]) (manage 0 demo_world) = Inr s'
         \<and> fired s' = [(1200, 1)]
         \<and> state s' ''x'' = Some (Num 0) \<and> state s' ''y'' = Some (Num 40)
         \<and> state s' ''width'' = Some (Num 1024) \<and> state s' ''height'' = Some (Num 768))"
proof -
  let ?s = "manage 0 demo_world"
  let ?r = "\<lparr> rect_x = - 20, rect_y = 40, rect_width = 1024, rect_height = 768 \<rparr>"
  have h: "listeners_of ?s 0 Resize = [Debounced 1]" "timers ?s = []"
    "debounce (opts ?s) = 500" "clock ?s = 0" "fired ?s = []"
    by (simp_all add: demo_defs op_defs)
  have n: "demo_burst \<noteq> []" "\<forall>g\<in>set (map fst (tl demo_burst)). g < debounce (opts ?s)"
    "sum_list (map fst demo_burst) = 700" "snd (last demo_burst) = ?r"
    by (simp_all add: demo_burst_def h(3))
  have d: "debounce (opts ?s) \<le> 500" by (simp add: h(3))
  let ?sF = "(with_bounds 0 ?r ?s)\<lparr> clock := 1200, fired := [(1200, 1)] \<rparr>"
  from debounced_burst_runs_handler_once [OF h(1) h(2) n(1) n(2) d]
  obtain s' where s': "changeHandler ?sF = Inr s'"
    "run (burst_actions 0 Resize demo_burst @ [Elapse 500]) ?s = Inr (s'\<lparr> clock := 1200 \<rparr>)"
    "fired s' = [(1200, 1)]"
    unfolding n(3,4) h(3,4,5) by auto
  have q: "win ?sF = Some 0" "getBounds (windows ?sF 0) = Inr ?r"
    "isMinimized (windows ?sF 0) = Inr False" "isFullScreen (windows ?sF 0) = Inr False"
    by (simp_all add: with_bounds_def win_manage) (simp_all add: demo_defs op_defs)
  from changeHandler_normal [OF q] s'(1)
  have st: "state s' = (state ?sF)(''x'' \<mapsto> Num 0, ''y'' \<mapsto> Num 40,
        ''width'' \<mapsto> Num 1024, ''height'' \<mapsto> Num 768)"
    by simp
  show ?thesis
    using h(1,2,3) s'(2,3) st by simp
qed

subsection \<open>C7: a normal window overwrites the geometry, negative origin clamped\<close>

text \<open>
  C7. When the window is neither minimized nor full-screen, \<open>changeHandler\<close> sets
  \<open>x\<close> and \<open>y\<close> of the state to the live bounds with a negative value replaced
  by 0, and \<open>width\<close> and \<open>height\<close> to the live bounds. The witness has live bounds
  \<open>x = -50\<close>, \<open>y = 30\<close> and stores \<open>x = 0\<close>, \<open>y = 30\<close>.
\<close>

theorem changeHandler_normal_overwrites:
  assumes "win s = Some w" "getBounds (windows s w) = Inr b"
    "isMinimized (windows s w) = Inr False" "isFullScreen (windows s w) = Inr False"
  shows "\<exists>s'. changeHandler s = Inr s' \<and>
     state s' = (state s)(''x'' \<mapsto> Num (max (rect_x b) 0), ''y'' \<mapsto> Num (max (rect_y b) 0),
        ''width'' \<mapsto> Num (rect_width b), ''height'' \<mapsto> Num (rect_height b))"
  using assms
  by (simp add: changeHandler_def changeHandler_try_def isNormal_def saveState_def Let_def max_def)

theorem changeHandler_normal_overwrites_witness:
  "win (manage 0 demo_world) = Some 0
   \<and> getBounds (windows (manage 0 demo_world) 0)
       = Inr \<lparr> rect_x = - 50, rect_y = 30, rect_width = 640, rect_height = 480 \<rparr>
   \<and> (\<exists>s'. changeHandler (manage 0 demo_world) = Inr s'
         \<and> state s' ''x'' = Some (Num 0) \<and> state s' ''y'' = Some (Num 30)
         \<and> state s' ''width'' = Some (Num 640) \<and> state s' ''height'' = Some (Num 480))"
proof -
  have h: "win (manage 0 demo_world) = Some 0"
    "getBounds (windows (manage 0 demo_world) 0)
       = Inr \<lparr> rect_x = - 50, rect_y = 30, rect_width = 640, rect_height = 480 \<rparr>"
    "isMinimized (windows (manage 0 demo_world) 0) = Inr False"
    "isFullScreen (windows (manage 0 demo_world) 0) = Inr False"
    by (simp_all add: demo_defs op_defs)
  from changeHandler_normal_overwrites [OF h] h(1,2)
  show ?thesis by auto
qed

subsection \<open>C8: reset clears the store and leaves the state record\<close>

text \<open>
  C8. \<open>reset\<close> empties the store and does not change the in-memory state, so
  \<open>winOptions\<close> and the getters \<open>width\<close>, \<open>height\<close>, \<open>frame\<close>, \<open>x\<close>, \<open>y\<close>
  answer as before; \<open>getState\<close> of an instance constructed after \<open>reset\<close> over
  the same store is exactly the defaults record, with no \<open>x\<close> or \<open>y\<close>.
\<close>

theorem reset_clears_store_only:
  fixes s :: "'a WinState_scheme"
  shows "store_get (store (reset s)) = Map.empty
   \<and> state (reset s) = state s
   \<and> winOptions (reset s) = winOptions s
   \<and> get_width (reset s) = get_width s \<and> get_height (reset s) = get_height s
   \<and> get_frame (reset s) = get_frame s \<and> get_x (reset s) = get_x s \<and> get_y (reset s) = get_y s
   \<and> getState (WinState_new options (store (reset s))) = defaults_record (resolve_options options)
   \<and> getState (WinState_new options (store (reset s))) ''x'' = None
   \<and> getState (WinState_new options (store (reset s))) ''y'' = None"
  by (simp add: reset_def store_clear_def store_get_def winOptions_def get_width_def get_height_def
      get_frame_def get_x_def get_y_def defaults_record_eq WinState_new_simps defaults_record_def)

theorem reset_clears_store_only_witness:
  "winOptions (reset (WinState_new no_options seeded_store)) ''width'' = Some (Num 1024)
   \<and> getState (WinState_new no_options (store (reset (WinState_new no_options seeded_store))))
        ''width'' = Some (Num 600)"
  using reset_clears_store_only [of "WinState_new no_options seeded_store" no_options]
  by (simp add: winOptions_lookup get_width_def get_prop_def WinState_new_simps seeded_store_def
      defaults_record_def no_options_def resolve_options_def defaultOptions_def or_default_def)

subsection \<open>C9: the stored window handle\<close>

text \<open>
  C9, as amended. An instance stores at most one window handle (\<open>win\<close>). After every
  sequence of actions from a state in which the stored handle, if any, has a listener
  for each of the five events, the run returns and the stored handle, if any, again
  has a listener for each of the five events. \<open>manage(w)\<close> makes \<open>w\<close> the stored
  handle from either state, without detaching a window managed before;
  \<open>unmanage\<close> and the close handler leave no stored handle, and \<open>unmanage\<close> is
  idempotent.
\<close>

theorem stored_window_is_listening:
  assumes "bound_listening s0"
  shows "\<exists>s. run as s0 = Inr s \<and> bound_listening s
     \<and> win (manage w s) = Some w \<and> bound_listening (manage w s)
     \<and> win (unmanage s) = None \<and> win (closeHandler s) = None
     \<and> unmanage (unmanage s) = unmanage s"
proof -
  obtain s where s: "run as s0 = Inr s" using run_returns by blast
  have "bound_listening s" using bound_listening_run[OF assms s] .
  then show ?thesis
    using s by (simp add: win_manage bound_listening_manage win_unmanage win_closeHandler unmanage_idem)
qed

theorem stored_window_is_listening_witness:
  "bound_listening demo_world
   \<and> (\<exists>s. run [Manage 0, Manage 1, Emit 0 Close] demo_world = Inr s \<and> bound_listening s
         \<and> win s = None \<and> win (manage 1 s) = Some 1 \<and> win (unmanage s) = None)"
proof -
  from stored_window_is_listening [OF bound_listening_demo, of "[Manage 0, Manage 1, Emit 0 Close]" 1]
  obtain s where s: "run [Manage 0, Manage 1, Emit 0 Close] demo_world = Inr s"
    "bound_listening s" "win (manage 1 s) = Some 1" "win (unmanage s) = None"
    by blast
  have "run [Manage 0, Manage 1, Emit 0 Close] demo_world
      = Inr (emit 0 Close (manage 1 (manage 0 demo_world)))"
    by (simp add: step_def)
  with s(1) have "s = emit 0 Close (manage 1 (manage 0 demo_world))" by simp
  moreover have "win (emit 0 Close (manage 1 (manage 0 demo_world))) = None"
    by (simp add: demo_defs op_defs)
  ultimately have "win s = None" by simp
  with s bound_listening_demo show ?thesis by blast
qed

text \<open>
  C9 as stated fails: after \<open>manage\<close> of window 0 and then of window 1, both windows
  carry listeners of the instance.
\<close>

theorem two_windows_listening_counterexample:
  "\<not> length (windows_with_listeners (manage 1 (manage 0 demo_world)) [0, 1]) \<le> 1"
  by (simp add: demo_defs op_defs windows_with_listeners_def)

subsection \<open>C10: changeHandler never throws\<close>

text \<open>
  C10. For every state and whatever the window's queries do, \<open>changeHandler\<close>
  returns normally; when a query throws inside the \<open>try\<close> block the exception is
  discarded and the instance is left as it was.
\<close>

theorem changeHandler_never_throws:
  "\<exists>s'. changeHandler s = Inr s' \<and> (\<forall>e. changeHandler_try s = Inl e \<longrightarrow> s' = s)"
  by (auto simp: changeHandler_def split: sum.splits)

theorem changeHandler_never_throws_witness:
  "changeHandler_try destroyed_world = Inl (Error ''Object has been destroyed'')
   \<and> changeHandler destroyed_world = Inr destroyed_world"
  using changeHandler_never_throws [of destroyed_world] destroyed_throws by auto

end
